theory Spec2Isabelle
  imports
    Complex_Main
    "HOL-Library.Multiset"
    "HOL-Library.Sublist"
    "HOL-Library.Char_ord"
    "HOL-Library.List_Lexorder"
    "HOL-Library.Log_Nat"
begin

section \<open>Budget Explorer: the data the client receives\<close>

text \<open>
  The TypeScript interfaces of the client pages. A numeric field holds the real number that
  the JSON numeral of the response denotes, \<open>number | null\<close> being a \<^typ>\<open>real option\<close>; where
  a page adds or divides such fields (the category total, the percentages), each field is
  first rounded to the number that the runtime reads the numeral as. A string is a
  \<^typ>\<open>string\<close>. Field names carry a prefix where the source's name is a keyword or would
  clash between two interfaces.
\<close>

record BudgetItem =
  item_id :: string
  item_document_id :: string
  item_year :: int
  side :: string
  category :: string
  description_original :: string
  item_value :: "real option"
  item_unit :: string
  page_number :: nat
  evidence_text :: string
  explanation :: string

record CategorySummary =
  summary_category :: string
  total_value :: real
  item_count :: nat

record DocumentSummary =
  summary_document_id :: string
  summary_year :: int
  revenue_total :: real
  expense_total :: real
  revenue_by_category :: "CategorySummary list"
  expense_by_category :: "CategorySummary list"

record ImportJob =
  job_id :: string
  status :: string
  progress :: nat
  error_message :: "string option"

section \<open>JavaScript numbers\<close>

text \<open>
  A JavaScript number is an IEEE 754 binary64 value. A finite one is held as the real
  number it denotes; the infinities and \<open>NaN\<close> are values of their own. The two zeros are
  one value here: \<open>|| 0\<close>, \<open>=== 0\<close> and \<open>toFixed\<close> treat them alike, and the pages never
  divide by a zero. Every arithmetic operation yields the exact result rounded to the
  nearest double, ties to the even significand.
\<close>

datatype js_number = Finite real | PosInfinity | NegInfinity | NaN

text \<open>The binary exponent of a real other than 0: the \<open>e\<close> with \<open>2^e \<le> |x| < 2^(e+1)\<close>.\<close>

definition exponent :: "real \<Rightarrow> int" where
  "exponent x =
     (if 1 \<le> \<bar>x\<bar> then bitlen \<lfloor>\<bar>x\<bar>\<rfloor> - 1 else - bitlen (\<lceil>1 / \<bar>x\<bar>\<rceil> - 1))"

text \<open>The doubles near \<open>x\<close> are the multiples of \<open>2^quantum x\<close>: 53 significant bits, and
  steps of \<open>2^-1074\<close> below the normal range.\<close>

definition quantum :: "real \<Rightarrow> int" where
  "quantum x = max (exponent x - 52) (- 1074)"

definition round_half_even :: "real \<Rightarrow> int" where
  "round_half_even y =
     (let f = \<lfloor>y\<rfloor>; d = y - of_int f
      in if d < 1 / 2 then f else if 1 / 2 < d then f + 1 else if even f then f else f + 1)"

definition nearest_double :: "real \<Rightarrow> real" where
  "nearest_double x =
     (if x = 0 then 0
      else of_int (round_half_even (x / 2 powi quantum x)) * 2 powi quantum x)"

text \<open>Rounding a real to a number; from \<open>2^1024\<close> on the result is an infinity. This is
  also how \<open>res.json()\<close> reads a JSON numeral.\<close>

definition to_double :: "real \<Rightarrow> js_number" where
  "to_double x =
     (let y = nearest_double x
      in if 2 ^ 1024 \<le> y then PosInfinity
         else if y \<le> - (2 ^ 1024) then NegInfinity
         else Finite y)"

definition infinity :: "bool \<Rightarrow> js_number" where
  "infinity positive = (if positive then PosInfinity else NegInfinity)"

text \<open>The operators \<open>+\<close>, \<open>*\<close> and \<open>/\<close> on numbers. A division by zero does not raise: it
  yields an infinity, or \<open>NaN\<close> for \<open>0 / 0\<close> (the zero divisor is taken as \<open>+0\<close>).\<close>

fun js_add :: "js_number \<Rightarrow> js_number \<Rightarrow> js_number" where
  "js_add NaN y = NaN"
| "js_add x NaN = NaN"
| "js_add (Finite a) (Finite b) = to_double (a + b)"
| "js_add PosInfinity NegInfinity = NaN"
| "js_add NegInfinity PosInfinity = NaN"
| "js_add PosInfinity y = PosInfinity"
| "js_add x PosInfinity = PosInfinity"
| "js_add NegInfinity y = NegInfinity"
| "js_add x NegInfinity = NegInfinity"

fun js_mul :: "js_number \<Rightarrow> js_number \<Rightarrow> js_number" where
  "js_mul NaN y = NaN"
| "js_mul x NaN = NaN"
| "js_mul (Finite a) (Finite b) = to_double (a * b)"
| "js_mul (Finite a) PosInfinity = (if a = 0 then NaN else infinity (0 < a))"
| "js_mul (Finite a) NegInfinity = (if a = 0 then NaN else infinity (a < 0))"
| "js_mul PosInfinity (Finite b) = (if b = 0 then NaN else infinity (0 < b))"
| "js_mul NegInfinity (Finite b) = (if b = 0 then NaN else infinity (b < 0))"
| "js_mul PosInfinity PosInfinity = PosInfinity"
| "js_mul PosInfinity NegInfinity = NegInfinity"
| "js_mul NegInfinity PosInfinity = NegInfinity"
| "js_mul NegInfinity NegInfinity = PosInfinity"

fun js_div :: "js_number \<Rightarrow> js_number \<Rightarrow> js_number" where
  "js_div NaN y = NaN"
| "js_div x NaN = NaN"
| "js_div (Finite a) (Finite b) =
     (if b = 0 then (if a = 0 then NaN else infinity (0 < a)) else to_double (a / b))"
| "js_div (Finite a) PosInfinity = Finite 0"
| "js_div (Finite a) NegInfinity = Finite 0"
| "js_div PosInfinity (Finite b) = infinity (0 \<le> b)"
| "js_div NegInfinity (Finite b) = infinity (b < 0)"
| "js_div PosInfinity PosInfinity = NaN"
| "js_div PosInfinity NegInfinity = NaN"
| "js_div NegInfinity PosInfinity = NaN"
| "js_div NegInfinity NegInfinity = NaN"

section \<open>The item page and the category page\<close>

text \<open>
  \<open>formatCurrency\<close> of \<open>items/[id]/page.tsx\<close>. The call
  \<open>new Intl.NumberFormat('pt-PT', {style: 'currency', currency: 'EUR', ...}).format\<close> belongs to
  the JavaScript runtime, not to the repository: it is the parameter \<open>format\<close>. The
  parameter \<open>unit\<close> is unused in the source as well.
\<close>

definition formatCurrency_item :: "(real \<Rightarrow> string) \<Rightarrow> real option \<Rightarrow> string \<Rightarrow> string" where
  "formatCurrency_item format v unit =
     (case v of None \<Rightarrow> ''N/A'' | Some x \<Rightarrow> format x)"

text \<open>\<open>formatCurrency\<close> of the category page: the same, through the local \<open>numValue\<close>.\<close>

definition formatCurrency_category :: "(real \<Rightarrow> string) \<Rightarrow> real option \<Rightarrow> string \<Rightarrow> string" where
  "formatCurrency_category format v unit =
     (case v of None \<Rightarrow> ''N/A'' | Some x \<Rightarrow> (let numValue = x in format numValue))"

text \<open>\<open>getSideLabel\<close> of the item page.\<close>

definition getSideLabel_item :: "string \<Rightarrow> string" where
  "getSideLabel_item s = (if s = ''REVENUE'' then ''RECEITA'' else ''DESPESA'')"

text \<open>
  The category page's total: \<open>items.reduce((sum, item) => sum + (item.value || 0), 0)\<close>.
  The page holds \<open>item.value\<close> as the number \<open>res.json()\<close> read, or \<open>null\<close>. \<open>x || 0\<close> is \<open>0\<close>
  when \<open>x\<close> is \<open>null\<close>, \<open>0\<close> or \<open>NaN\<close>, and \<open>x\<close> otherwise; \<open>+\<close> is the addition of numbers.
\<close>

definition js_value :: "BudgetItem \<Rightarrow> js_number option" where
  "js_value item = map_option to_double (item_value item)"

definition or_zero :: "js_number option \<Rightarrow> js_number" where
  "or_zero v =
     (case v of
        None \<Rightarrow> Finite 0
      | Some d \<Rightarrow> (if d = Finite 0 \<or> d = NaN then Finite 0 else d))"

definition total :: "BudgetItem list \<Rightarrow> js_number" where
  "total items = foldl (\<lambda>sum item. js_add sum (or_zero (js_value item))) (Finite 0) items"


text \<open>
  The sort control: the state \<open>sortBy\<close> starts as \<open>'value'\<close>; the \<open>select\<close> element
  holds three options and \<open>onChange\<close> stores the value of the chosen one.
\<close>

definition sort_options :: "string list" where
  "sort_options = [''value'', ''page_number'', ''description'']"

definition initial_sortBy :: string where
  "initial_sortBy = ''value''"

text \<open>Choosing the option at position \<open>i\<close>; a \<open>select\<close> has no other positions.\<close>

definition onChange_sortBy :: "string \<Rightarrow> nat \<Rightarrow> string" where
  "onChange_sortBy sortBy i = (if i < length sort_options then sort_options ! i else sortBy)"

definition sortBy_after :: "nat list \<Rightarrow> string" where
  "sortBy_after choices = foldl onChange_sortBy initial_sortBy choices"

section \<open>The document dashboard\<close>

text \<open>\<open>getSideLabel\<close> of the dashboard.\<close>

definition getSideLabel_document :: "string \<Rightarrow> string" where
  "getSideLabel_document s = (if s = ''REVENUE'' then ''RECEITA'' else ''DESPESA'')"

text \<open>
  \<open>formatPercentage\<close>: \<open>if (total === 0) return '0%'\<close>, else
  \<open>((value / total) * 100).toFixed(1)\<close> followed by \<open>%\<close>. The division and the
  multiplication are those of numbers, each rounded on its own. \<open>toFixed\<close> is
  \<open>Number.prototype.toFixed\<close> of the runtime, a parameter here.
\<close>

definition formatPercentage ::
  "(js_number \<Rightarrow> nat \<Rightarrow> string) \<Rightarrow> js_number \<Rightarrow> js_number \<Rightarrow> string" where
  "formatPercentage toFixed v t =
     (if t = Finite 0 then ''0%''
      else toFixed (js_mul (js_div v t) (Finite 100)) 1 @ ''%'')"

text \<open>The two calls: \<open>formatPercentage(cat.total_value, summary.revenue_total)\<close> and the same
  with \<open>summary.expense_total\<close>, on the numbers read from the summary.\<close>

definition revenue_percentage ::
  "(js_number \<Rightarrow> nat \<Rightarrow> string) \<Rightarrow> DocumentSummary \<Rightarrow> CategorySummary \<Rightarrow> string" where
  "revenue_percentage toFixed summary cat =
     formatPercentage toFixed (to_double (total_value cat)) (to_double (revenue_total summary))"

definition expense_percentage ::
  "(js_number \<Rightarrow> nat \<Rightarrow> string) \<Rightarrow> DocumentSummary \<Rightarrow> CategorySummary \<Rightarrow> string" where
  "expense_percentage toFixed summary cat =
     formatPercentage toFixed (to_double (total_value cat)) (to_double (expense_total summary))"



text \<open>
  \<open>Array.prototype.sort\<close> with a comparator. The engine's algorithm is not part of the
  repository; ECMAScript requires the sort to be stable and to place \<open>a\<close> before \<open>b\<close>
  when the comparator is negative. It is modelled as a stable insertion sort.
\<close>

fun js_insert :: "('a \<Rightarrow> 'a \<Rightarrow> real) \<Rightarrow> 'a \<Rightarrow> 'a list \<Rightarrow> 'a list" where
  "js_insert cmp x [] = [x]"
| "js_insert cmp x (y # ys) =
     (if cmp x y \<le> 0 then x # y # ys else y # js_insert cmp x ys)"

fun js_sort :: "('a \<Rightarrow> 'a \<Rightarrow> real) \<Rightarrow> 'a list \<Rightarrow> 'a list" where
  "js_sort cmp [] = []"
| "js_sort cmp (x # xs) = js_insert cmp x (js_sort cmp xs)"

text \<open>The comparator of both category lists: \<open>(a, b) => b.total_value - a.total_value\<close>.\<close>

definition by_total_desc :: "CategorySummary \<Rightarrow> CategorySummary \<Rightarrow> real" where
  "by_total_desc a b = total_value b - total_value a"

definition shown_revenue_categories :: "DocumentSummary \<Rightarrow> CategorySummary list" where
  "shown_revenue_categories summary = js_sort by_total_desc (revenue_by_category summary)"

definition shown_expense_categories :: "DocumentSummary \<Rightarrow> CategorySummary list" where
  "shown_expense_categories summary = js_sort by_total_desc (expense_by_category summary)"

section \<open>Stand-ins for the runtime's formatters\<close>

text \<open>
  Closed instances of the properties below need concrete functions for the parameters
  \<open>format\<close> and \<open>toFixed\<close>. These stand in for them: a whole number of euros, and the
  decimal expansion rounded at the given digit (ties away from zero), which is what
  ECMAScript prescribes for \<open>toFixed\<close> of a finite number below \<open>10^21\<close> (from there on
  the runtime prints the exponent form, which the stand-in does not). No general property
  depends on them.
\<close>

fun digits :: "nat \<Rightarrow> string" where
  "digits n =
     (if n < 10 then [char_of (48 + n)]
      else digits (n div 10) @ [char_of (48 + n mod 10)])"

declare digits.simps [simp del]

definition format_whole_eur :: "real \<Rightarrow> string" where
  "format_whole_eur x =
     (if x < 0 then ''-'' else []) @ digits (nat \<lfloor>\<bar>x\<bar> + 1 / 2\<rfloor>) @ '' EUR''"

definition pad_left :: "nat \<Rightarrow> string \<Rightarrow> string" where
  "pad_left w s = replicate (w - length s) CHR ''0'' @ s"

definition toFixed_decimal :: "real \<Rightarrow> nat \<Rightarrow> string" where
  "toFixed_decimal x f =
     (let n = nat \<lfloor>\<bar>x\<bar> * 10 ^ f + 1 / 2\<rfloor>
      in (if x < 0 then ''-'' else []) @ digits (n div 10 ^ f) @
         (if f = 0 then [] else ''.'' @ pad_left f (digits (n mod 10 ^ f))))"

definition toFixed_js :: "js_number \<Rightarrow> nat \<Rightarrow> string" where
  "toFixed_js x f =
     (case x of
        Finite a \<Rightarrow> toFixed_decimal a f
      | PosInfinity \<Rightarrow> ''Infinity''
      | NegInfinity \<Rightarrow> ''-Infinity''
      | NaN \<Rightarrow> ''NaN'')"

section \<open>The Item Validator and the item store\<close>

text \<open>
  The backend is not among the sources; the definitions of this and the following two
  sections are written from the specification.
\<close>

text \<open>Modelled from the spec: a Page of section 3, with its 1-based page number and its
  raw extracted text, and the rejection reasons of section 4.3.\<close>

record Page =
  page_no :: nat
  page_text :: string

datatype RejectionReason = UnknownCategory | PageOutOfRange | EvidenceNotFound | MissingField

text \<open>Modelled from the spec: the fixed taxonomy of section 6, five revenue and eight
  expense labels.\<close>

definition revenue_categories :: "string list" where
  "revenue_categories =
     [''Personal taxes'', ''Corporate taxes'', ''Taxes on purchases'',
      ''Social security contributions'', ''Other revenue'']"

definition expense_categories :: "string list" where
  "expense_categories =
     [''Health'', ''Education'', ''Pensions & social support'', ''Running the government'',
      ''Security & defense'', ''Justice'', ''Infrastructure & environment'', ''Public debt'']"

definition taxonomy :: "string \<Rightarrow> string list" where
  "taxonomy s =
     (if s = ''REVENUE'' then revenue_categories
      else if s = ''EXPENSE'' then expense_categories
      else [])"

text \<open>Modelled from the spec: the Page identified by a page number (page numbers are
  unique per document).\<close>

definition find_page :: "Page list \<Rightarrow> nat \<Rightarrow> Page option" where
  "find_page pages n = find (\<lambda>p. page_no p = n) pages"

text \<open>
  Modelled from the spec: the Item Validator of section 4.3, which is not among the
  sources. The checks run in the order (a) category in the taxonomy of the stated side,
  (b) source page within the document, (c) for a non-null value the evidence is a
  non-empty literal substring of that page's text, (d) description and explanation
  non-empty. A rejection is a value, never a fault. \<^const>\<open>sublist\<close> is the contiguous,
  character-for-character containment.
\<close>

definition validate :: "BudgetItem \<Rightarrow> Page list \<Rightarrow> RejectionReason + BudgetItem" where
  "validate c pages =
     (if category c \<notin> set (taxonomy (side c)) then Inl UnknownCategory
      else (case find_page pages (page_number c) of
              None \<Rightarrow> Inl PageOutOfRange
            | Some p \<Rightarrow>
                if item_value c \<noteq> None \<and>
                   (evidence_text c = [] \<or> \<not> sublist (evidence_text c) (page_text p))
                then Inl EvidenceNotFound
                else if description_original c = [] \<or> explanation c = []
                then Inl MissingField
                else Inr c))"

text \<open>Modelled from the spec: rejected candidates are dropped, the others persisted.\<close>

definition accepted :: "Page list \<Rightarrow> BudgetItem list \<Rightarrow> BudgetItem list" where
  "accepted pages candidates =
     List.map_filter (\<lambda>c. case validate c pages of Inl r \<Rightarrow> None | Inr i \<Rightarrow> Some i) candidates"

text \<open>
  Modelled from the spec: the BudgetItems of one document. Items are created only by the
  extraction and validation stage, section by section, and removed only by the wholesale
  deletion that precedes a re-run; the pages never change.
\<close>

datatype StoreEvent = PersistSection "BudgetItem list" | DeleteItems

fun store_step :: "Page list \<Rightarrow> BudgetItem list \<Rightarrow> StoreEvent \<Rightarrow> BudgetItem list" where
  "store_step pages items (PersistSection candidates) = items @ accepted pages candidates"
| "store_step pages items DeleteItems = []"

definition store_after :: "Page list \<Rightarrow> StoreEvent list \<Rightarrow> BudgetItem list" where
  "store_after pages events = foldl (store_step pages) [] events"

text \<open>Modelled from the spec: the read endpoint \<open>getItem(itemId)\<close>.\<close>

definition getItem :: "BudgetItem list \<Rightarrow> string \<Rightarrow> BudgetItem option" where
  "getItem items i = find (\<lambda>x. item_id x = i) items"

section \<open>The items-by-category query\<close>

text \<open>Modelled from the spec: the sort keys of section 6, three and no more.\<close>

datatype SortKey = ByValue | ByPageNumber | ByDescription

text \<open>Modelled from the spec: the three sort keys of \<open>getItemsByCategory\<close>, under the
  names the client sends in \<open>sort_by\<close>.\<close>

definition parse_sort_key :: "string \<Rightarrow> SortKey option" where
  "parse_sort_key s =
     (if s = ''value'' then Some ByValue
      else if s = ''page_number'' then Some ByPageNumber
      else if s = ''description'' then Some ByDescription
      else None)"

text \<open>Modelled from the spec: the ordering of the query's result, which the spec fixes
  only by its outcome; a stable insertion sort under a "comes no later than" relation.\<close>

fun insert_by :: "('a \<Rightarrow> 'a \<Rightarrow> bool) \<Rightarrow> 'a \<Rightarrow> 'a list \<Rightarrow> 'a list" where
  "insert_by le x [] = [x]"
| "insert_by le x (y # ys) = (if le x y then x # y # ys else y # insert_by le x ys)"

fun sort_by :: "('a \<Rightarrow> 'a \<Rightarrow> bool) \<Rightarrow> 'a list \<Rightarrow> 'a list" where
  "sort_by le [] = []"
| "sort_by le (x # xs) = insert_by le x (sort_by le xs)"

text \<open>
  Modelled from the spec: by value descending, by page number ascending, by description
  in lexicographic (character code) order. The spec does not say where items with a null
  value go under the value key; \<open>nulls_first\<close> leaves both choices open.
\<close>

definition value_desc :: "bool \<Rightarrow> real option \<Rightarrow> real option \<Rightarrow> bool" where
  "value_desc nulls_first a b =
     (case a of
        None \<Rightarrow> (case b of None \<Rightarrow> True | Some y \<Rightarrow> nulls_first)
      | Some x \<Rightarrow> (case b of None \<Rightarrow> \<not> nulls_first | Some y \<Rightarrow> y \<le> x))"

fun key_order :: "bool \<Rightarrow> SortKey \<Rightarrow> BudgetItem \<Rightarrow> BudgetItem \<Rightarrow> bool" where
  "key_order nulls_first ByValue a b = value_desc nulls_first (item_value a) (item_value b)"
| "key_order nulls_first ByPageNumber a b = (page_number a \<le> page_number b)"
| "key_order nulls_first ByDescription a b = (description_original a \<le> description_original b)"

text \<open>Modelled from the spec: the items of one document in one category.\<close>

definition matching :: "BudgetItem list \<Rightarrow> string \<Rightarrow> string \<Rightarrow> BudgetItem list" where
  "matching items d c = filter (\<lambda>i. item_document_id i = d \<and> category i = c) items"

text \<open>Modelled from the spec: \<open>getItemsByCategory(documentId, category, sortKey)\<close> of
  section 6.\<close>

definition getItemsByCategory ::
  "bool \<Rightarrow> BudgetItem list \<Rightarrow> string \<Rightarrow> string \<Rightarrow> SortKey \<Rightarrow> BudgetItem list" where
  "getItemsByCategory nulls_first items d c k =
     sort_by (key_order nulls_first k) (matching items d c)"

section \<open>The Job Orchestrator's state machine\<close>

text \<open>Modelled from the spec: an ImportJob of section 3 with the four statuses of section
  4.4, of which \<open>COMPLETED\<close> and \<open>FAILED\<close> are terminal.\<close>

datatype JobStatus = PENDING | RUNNING | COMPLETED | FAILED

record Job =
  job_ident :: string
  job_status :: JobStatus
  job_progress :: nat
  job_error :: "string option"

definition terminal :: "JobStatus \<Rightarrow> bool" where
  "terminal s = (s = COMPLETED \<or> s = FAILED)"

text \<open>Modelled from the spec: a job is created in \<open>PENDING\<close>, with no progress and no
  error message.\<close>

definition new_job :: "string \<Rightarrow> Job" where
  "new_job i = \<lparr>job_ident = i, job_status = PENDING, job_progress = 0, job_error = None\<rparr>"

text \<open>Modelled from the spec: an upload creates the document together with its first
  job.\<close>

definition upload :: "string \<Rightarrow> Job list" where
  "upload i = [new_job i]"

text \<open>
  Modelled from the spec: the transitions of section 4.4 on the job history of one
  document (oldest job first; a job is named by its position). Each is a conditional
  update, as the persistence layer's atomic operations are; a request whose condition
  fails leaves the history as it is.
  \<^item> \<open>Reimport\<close>: a re-run creates a fresh job in \<open>PENDING\<close>.
  \<^item> \<open>Claim\<close>: only a \<open>PENDING\<close> job, and only while no job of the document is \<open>RUNNING\<close>.
  \<^item> \<open>StageDone\<close>: a running job records the progress reached after a completed stage,
    an integer up to 100 that is not below the progress recorded before.
  \<^item> \<open>Complete\<close>: a running job becomes \<open>COMPLETED\<close> at progress 100.
  \<^item> \<open>Fail\<close>: a running job becomes \<open>FAILED\<close> with the first fatal cause as message.
\<close>

datatype Event =
    Reimport string
  | Claim nat
  | StageDone nat nat
  | Complete nat
  | Fail nat string

fun step :: "Job list \<Rightarrow> Event \<Rightarrow> Job list" where
  "step js (Reimport i) = js @ [new_job i]"
| "step js (Claim k) =
     (if k < length js \<and> job_status (js ! k) = PENDING \<and>
         list_all (\<lambda>j. job_status j \<noteq> RUNNING) js
      then js[k := (js ! k)\<lparr>job_status := RUNNING\<rparr>] else js)"
| "step js (StageDone k p) =
     (if k < length js \<and> job_status (js ! k) = RUNNING \<and> job_progress (js ! k) \<le> p \<and> p \<le> 100
      then js[k := (js ! k)\<lparr>job_progress := p\<rparr>] else js)"
| "step js (Complete k) =
     (if k < length js \<and> job_status (js ! k) = RUNNING
      then js[k := (js ! k)\<lparr>job_status := COMPLETED, job_progress := 100\<rparr>] else js)"
| "step js (Fail k msg) =
     (if k < length js \<and> job_status (js ! k) = RUNNING
      then js[k := (js ! k)\<lparr>job_status := FAILED, job_error := Some msg\<rparr>] else js)"

text \<open>Modelled from the spec: the job history of a document after its upload and any
  sequence of requests.\<close>

definition run :: "string \<Rightarrow> Event list \<Rightarrow> Job list" where
  "run i events = foldl step (upload i) events"

text \<open>Modelled from the spec: \<open>getJobs(documentId)\<close>, the job history as the client
  receives it, the status under its name.\<close>

fun status_name :: "JobStatus \<Rightarrow> string" where
  "status_name PENDING = ''PENDING''"
| "status_name RUNNING = ''RUNNING''"
| "status_name COMPLETED = ''COMPLETED''"
| "status_name FAILED = ''FAILED''"

definition to_ImportJob :: "Job \<Rightarrow> ImportJob" where
  "to_ImportJob j =
     \<lparr>job_id = job_ident j, status = status_name (job_status j),
      progress = job_progress j, error_message = job_error j\<rparr>"

definition getJobs :: "Job list \<Rightarrow> ImportJob list" where
  "getJobs js = map to_ImportJob js"

section \<open>Predicates and sample data for the properties\<close>

text \<open>In the spec's words: an item with a value carries a non-empty excerpt that occurs
  literally in the text of the page it cites.\<close>

definition evidence_backed :: "Page list \<Rightarrow> BudgetItem \<Rightarrow> bool" where
  "evidence_backed pages i =
     (item_value i = None \<or>
      (evidence_text i \<noteq> [] \<and>
       (case find_page pages (page_number i) of
          None \<Rightarrow> False
        | Some p \<Rightarrow> sublist (evidence_text i) (page_text p))))"

text \<open>No two positions of a list hold an element with the property \<open>P\<close>.\<close>

definition single :: "('a \<Rightarrow> bool) \<Rightarrow> 'a list \<Rightarrow> bool" where
  "single P xs = (\<forall>a<length xs. \<forall>b<length xs. P (xs ! a) \<and> P (xs ! b) \<longrightarrow> a = b)"


text \<open>A number as the runtime holds it: a finite one is its own nearest double.\<close>

definition is_double :: "js_number \<Rightarrow> bool" where
  "is_double n = (case n of Finite a \<Rightarrow> to_double a = Finite a | _ \<Rightarrow> True)"

text \<open>The spec's examples: a page that reads "Total Health spending: 500 EUR" and the
  item citing "500 EUR" on it; an item citing "1,000,000 EUR" on a page that reads
  "1.000.000 EUR"; and an item whose amount could not be parsed.\<close>

definition example_pages :: "Page list" where
  "example_pages =
     [\<lparr>page_no = 1, page_text = ''Total Health spending: 500 EUR''\<rparr>,
      \<lparr>page_no = 2, page_text = ''Defence: 1.000.000 EUR''\<rparr>]"

definition example_item :: BudgetItem where
  "example_item =
     \<lparr>item_id = ''i1'', item_document_id = ''d1'', item_year = 2024, side = ''EXPENSE'',
      category = ''Health'', description_original = ''Total Health spending'',
      item_value = Some 500, item_unit = ''EUR'', page_number = 1,
      evidence_text = ''500 EUR'', explanation = ''Health spending''\<rparr>"

definition example_rejected :: BudgetItem where
  "example_rejected =
     \<lparr>item_id = ''i2'', item_document_id = ''d1'', item_year = 2024, side = ''EXPENSE'',
      category = ''Security & defense'', description_original = ''Defence'',
      item_value = Some 1000000, item_unit = ''EUR'', page_number = 2,
      evidence_text = ''1,000,000 EUR'', explanation = ''Defence spending''\<rparr>"

definition example_null :: BudgetItem where
  "example_null =
     \<lparr>item_id = ''i3'', item_document_id = ''d1'', item_year = 2024, side = ''EXPENSE'',
      category = ''Health'', description_original = ''Hospitals'',
      item_value = None, item_unit = ''EUR'', page_number = 2,
      evidence_text = [], explanation = ''Amount not legible''\<rparr>"

text \<open>The sample item with another amount.\<close>

definition example_amount :: "real \<Rightarrow> BudgetItem" where
  "example_amount v = example_item\<lparr>item_value := Some v\<rparr>"

section \<open>Properties of the rounding to doubles\<close>

text \<open>The exponent is the one of the definition's comment; rounding a double again, or a
  whole number of magnitude at most \<open>2^53\<close>, changes nothing.\<close>

lemma exponent_bounds:
  assumes "x \<noteq> 0"
  shows "2 powi exponent x \<le> \<bar>x\<bar>" and "\<bar>x\<bar> < 2 powi (exponent x + 1)"
proof -
  let ?a = "\<bar>x\<bar>"
  have pos: "0 < ?a" using assms by simp
  have "2 powi exponent x \<le> ?a \<and> ?a < 2 powi (exponent x + 1)"
  proof (cases "1 \<le> ?a")
    case True
    let ?m = "\<lfloor>?a\<rfloor>"
    have m: "0 < ?m" using True by simp
    from bitlen_bounds [OF m]
    have lo: "2 ^ nat (bitlen ?m - 1) \<le> ?m" and hi: "?m < 2 ^ nat (bitlen ?m)" by simp_all
    have b1: "1 \<le> bitlen ?m" using m by (simp add: bitlen_alt_def)
    have e: "exponent x = bitlen ?m - 1" using True by (simp add: exponent_def)
    have "(2::real) powi exponent x = 2 ^ nat (bitlen ?m - 1)"
      using b1 e by (simp add: power_int_def)
    also have "\<dots> \<le> real_of_int ?m"
      using lo by (metis of_int_le_iff of_int_numeral of_int_power)
    also have "\<dots> \<le> ?a" by simp
    finally have A: "2 powi exponent x \<le> ?a" .
    have "?m + 1 \<le> 2 ^ nat (bitlen ?m)" using hi by simp
    then have up: "real_of_int (?m + 1) \<le> 2 ^ nat (bitlen ?m)"
      by (metis of_int_le_iff of_int_numeral of_int_power)
    have "?a < real_of_int (?m + 1)" by linarith
    from this up have "?a < 2 ^ nat (bitlen ?m)" by (rule less_le_trans)
    moreover have "2 powi (exponent x + 1) = (2::real) ^ nat (bitlen ?m)"
      using b1 e by (simp add: power_int_def)
    ultimately have B: "?a < 2 powi (exponent x + 1)" by simp
    from A B show ?thesis by simp
  next
    case False
    let ?r = "1 / ?a"
    let ?m = "\<lceil>?r\<rceil> - 1"
    have r1: "1 < ?r" using False pos by simp
    have m: "0 < ?m" using r1 by linarith
    have mr: "real_of_int ?m < ?r" "?r \<le> real_of_int ?m + 1" by linarith+
    from bitlen_bounds [OF m]
    have lo: "2 ^ nat (bitlen ?m - 1) \<le> ?m" and hi: "?m < 2 ^ nat (bitlen ?m)" by simp_all
    have b1: "1 \<le> bitlen ?m" using m by (simp add: bitlen_alt_def)
    have e: "exponent x = - bitlen ?m" using False by (simp add: exponent_def)
    have "real_of_int (?m + 1) \<le> 2 ^ nat (bitlen ?m)"
      using hi by (metis of_int_le_iff of_int_numeral of_int_power zless_imp_add1_zle)
    with mr(2) have rle: "?r \<le> 2 ^ nat (bitlen ?m)" by linarith
    have "(2::real) ^ nat (bitlen ?m - 1) \<le> real_of_int ?m"
      using lo by (metis of_int_le_iff of_int_numeral of_int_power)
    with mr(1) have rgt: "2 ^ nat (bitlen ?m - 1) < ?r" by linarith
    have A: "2 powi exponent x \<le> ?a"
    proof -
      have "(2::real) powi exponent x = inverse (2 powi bitlen ?m)"
        using e by (simp only: power_int_minus)
      also have "(2::real) powi bitlen ?m = 2 ^ nat (bitlen ?m)"
        using b1 by (simp only: power_int_nonneg_exp)
      finally have "(2::real) powi exponent x = 1 / 2 ^ nat (bitlen ?m)"
        by (simp only: inverse_eq_divide)
      also have "\<dots> \<le> ?a"
        using rle pos by (simp add: field_simps)
      finally show ?thesis .
    qed
    have B: "?a < 2 powi (exponent x + 1)"
    proof -
      have "(2::real) powi (exponent x + 1) = 1 / 2 ^ nat (bitlen ?m - 1)"
      proof -
        have "exponent x + 1 = - (bitlen ?m - 1)" using e by simp
        then have "(2::real) powi (exponent x + 1) = inverse (2 powi (bitlen ?m - 1))"
          by (simp only: power_int_minus)
        also have "(2::real) powi (bitlen ?m - 1) = 2 ^ nat (bitlen ?m - 1)"
          using b1 by (simp only: power_int_nonneg_exp)
        finally show ?thesis by (simp only: inverse_eq_divide)
      qed
      moreover have "?a < 1 / 2 ^ nat (bitlen ?m - 1)"
        using rgt pos by (simp add: field_simps)
      ultimately show ?thesis by simp
    qed
    from A B show ?thesis by simp
  qed
  then show "2 powi exponent x \<le> \<bar>x\<bar>" and "\<bar>x\<bar> < 2 powi (exponent x + 1)" by simp_all
qed

lemma exponent_less:
  assumes "x \<noteq> 0" and "\<bar>x\<bar> < 2 powi e"
  shows "exponent x < e"
proof (rule ccontr)
  assume "\<not> exponent x < e"
  then have "e \<le> exponent x" by simp
  then have "(2::real) powi e \<le> 2 powi exponent x"
    by (intro power_int_increasing) simp_all
  also have "\<dots> \<le> \<bar>x\<bar>" using assms(1) by (rule exponent_bounds)
  finally show False using assms(2) by simp
qed

lemma exponent_ge:
  assumes "x \<noteq> 0" and "2 powi e \<le> \<bar>x\<bar>"
  shows "e \<le> exponent x"
proof (rule ccontr)
  assume "\<not> e \<le> exponent x"
  then have "exponent x + 1 \<le> e" by simp
  then have "(2::real) powi (exponent x + 1) \<le> 2 powi e"
    by (intro power_int_increasing) simp_all
  with exponent_bounds(2) [OF assms(1)] assms(2) show False by simp
qed

lemma round_half_even_of_int [simp]: "round_half_even (of_int k) = k"
  by (simp add: round_half_even_def)

lemma round_half_even_le: "y \<le> of_int k \<Longrightarrow> round_half_even y \<le> k"
  unfolding round_half_even_def Let_def by (auto; linarith)

lemma round_half_even_ge: "of_int k \<le> y \<Longrightarrow> k \<le> round_half_even y"
  unfolding round_half_even_def Let_def by (auto; linarith)

lemma quantum_ge: "- 1074 \<le> quantum x" and quantum_expo: "exponent x - 52 \<le> quantum x"
  by (simp_all add: quantum_def)

lemma pow2_split: "(2::real) powi (a + b) = 2 powi a * 2 powi b"
  by (rule power_int_add) simp

lemma scaled_bound:
  assumes "x \<noteq> 0"
  shows "\<bar>x / 2 powi quantum x\<bar> < 2 ^ 53"
proof -
  have "exponent x + 1 \<le> quantum x + 53" using quantum_expo [of x] by simp
  then have "(2::real) powi (exponent x + 1) \<le> 2 powi (quantum x + 53)"
    by (intro power_int_increasing) simp_all
  with exponent_bounds(2) [OF assms] have "\<bar>x\<bar> < 2 powi (quantum x + 53)" by simp
  also have "\<dots> = 2 powi quantum x * 2 ^ 53"
    by (simp add: pow2_split)
  finally have "\<bar>x\<bar> / 2 powi quantum x < 2 ^ 53"
    by (simp add: field_simps)
  then show ?thesis by simp
qed

lemma round_half_even_scaled_bound:
  assumes "x \<noteq> 0"
  shows "\<bar>round_half_even (x / 2 powi quantum x)\<bar> \<le> 2 ^ 53"
proof -
  define s where "s = x / 2 powi quantum x"
  have "\<bar>s\<bar> < 2 ^ 53" unfolding s_def by (rule scaled_bound [OF assms])
  then have up: "s \<le> of_int (2 ^ 53)" and lo: "of_int (- (2 ^ 53)) \<le> s"
    by simp_all
  have "round_half_even s \<le> 2 ^ 53" using up by (rule round_half_even_le)
  moreover have "- (2 ^ 53) \<le> round_half_even s" using lo by (rule round_half_even_ge)
  ultimately show ?thesis unfolding s_def by simp
qed

lemma nearest_double_grid:
  assumes "y = of_int n * 2 powi u" and "quantum y \<le> u"
  shows "nearest_double y = y"
proof (cases "y = 0")
  case True
  then show ?thesis by (simp add: nearest_double_def)
next
  case False
  define w where "w = (2::real) powi quantum y"
  define k where "k = nat (u - quantum y)"
  have w: "0 < w" by (simp add: w_def)
  have "u = quantum y + int k" using assms(2) by (simp add: k_def)
  then have "(2::real) powi u = 2 powi quantum y * 2 powi int k"
    by (metis pow2_split)
  then have pu: "(2::real) powi u = w * 2 ^ k"
    by (simp add: w_def)
  have "y / w = of_int n * 2 ^ k"
    using assms(1) pu w by simp
  also have "\<dots> = of_int (n * 2 ^ k)" by simp
  finally have "round_half_even (y / w) = n * 2 ^ k"
    by (simp only: round_half_even_of_int)
  then have "of_int (round_half_even (y / w)) * w = of_int n * (w * 2 ^ k)"
    by simp
  also have "\<dots> = y" using pu assms(1) by simp
  finally show ?thesis using False by (simp add: nearest_double_def w_def)
qed

lemma quantum_of_grid:
  assumes "y = of_int n * 2 powi u" and "y \<noteq> 0" and "\<bar>n\<bar> < 2 ^ 53" and "- 1074 \<le> u"
  shows "quantum y \<le> u"
proof -
  have "\<bar>y\<bar> = of_int \<bar>n\<bar> * 2 powi u" using assms(1) by (simp add: abs_mult)
  also have "\<dots> < 2 ^ 53 * 2 powi u"
  proof -
    have "real_of_int \<bar>n\<bar> < 2 ^ 53" using assms(3)
      by (metis of_int_less_iff of_int_numeral of_int_power)
    then show ?thesis by (simp add: mult_strict_right_mono)
  qed
  also have "\<dots> = 2 powi (u + 53)" by (simp add: pow2_split)
  finally have "exponent y < u + 53" using assms(2) by (intro exponent_less)
  with assms(4) show ?thesis by (simp add: quantum_def)
qed

lemma nearest_double_idem: "nearest_double (nearest_double x) = nearest_double x"
proof (cases "x = 0")
  case True
  then show ?thesis by (simp add: nearest_double_def)
next
  case False
  let ?u = "quantum x"
  let ?n = "round_half_even (x / 2 powi ?u)"
  let ?y = "nearest_double x"
  have y: "?y = of_int ?n * 2 powi ?u" using False by (simp add: nearest_double_def)
  show ?thesis
  proof (cases "?y = 0")
    case True
    then show ?thesis by (simp add: nearest_double_def)
  next
    case y0: False
    show ?thesis
    proof (cases "\<bar>?n\<bar> < 2 ^ 53")
      case True
      from quantum_of_grid [OF y y0 True quantum_ge] have "quantum ?y \<le> ?u" .
      with y show ?thesis by (rule nearest_double_grid)
    next
      case False
      with round_half_even_scaled_bound [OF \<open>x \<noteq> 0\<close>] have n: "\<bar>?n\<bar> = 2 ^ 53" by simp
      then obtain h where h: "?n = h * 2" "\<bar>h\<bar> = 2 ^ 52"
        by (cases "0 \<le> ?n") (auto intro: that [of "2 ^ 52"] that [of "- (2 ^ 52)"])
      have "(2::real) powi (?u + 1) = 2 powi ?u * 2" by (simp add: pow2_split)
      with y h(1) have y': "?y = of_int h * 2 powi (?u + 1)" by simp
      have "\<bar>h\<bar> < 2 ^ 53" using h(2) by simp
      moreover have "- 1074 \<le> ?u + 1" using quantum_ge [of x] by simp
      ultimately have "quantum ?y \<le> ?u + 1" using y' y0 by (intro quantum_of_grid)
      with y' show ?thesis by (rule nearest_double_grid)
    qed
  qed
qed

lemma nearest_double_of_int:
  assumes "\<bar>k\<bar> \<le> 2 ^ 53"
  shows "nearest_double (of_int k) = of_int k"
proof (cases "\<bar>k\<bar> < 2 ^ 53")
  case True
  show ?thesis
  proof (cases "real_of_int k = 0")
    case True
    then show ?thesis by (simp add: nearest_double_def)
  next
    case False
    have y: "real_of_int k = of_int k * 2 powi 0" by simp
    from y False True have "quantum (of_int k) \<le> 0"
      by (rule quantum_of_grid) simp
    with y show ?thesis by (rule nearest_double_grid)
  qed
next
  case False
  with assms have "\<bar>k\<bar> = 2 ^ 53" by simp
  then obtain h where h: "k = h * 2" "\<bar>h\<bar> = 2 ^ 52"
    by (cases "0 \<le> k") (auto intro: that [of "2 ^ 52"] that [of "- (2 ^ 52)"])
  then have y: "real_of_int k = of_int h * 2 powi 1" by simp
  have "real_of_int k \<noteq> 0" using h by auto
  moreover have "\<bar>h\<bar> < 2 ^ 53" using h(2) by simp
  ultimately have "quantum (of_int k) \<le> 1" using y by (intro quantum_of_grid) simp_all
  with y show ?thesis by (rule nearest_double_grid)
qed

lemma to_double_is_double: "is_double (to_double x)"
  by (auto simp: is_double_def to_double_def Let_def nearest_double_idem split: if_splits)

lemma to_double_not_NaN [simp]: "to_double x \<noteq> NaN"
  by (simp add: to_double_def Let_def)

lemma to_double_0 [simp]: "to_double 0 = Finite 0"
  by (simp add: to_double_def nearest_double_def)



lemma to_double_of_int:
  assumes "\<bar>k\<bar> \<le> 2 ^ 53"
  shows "to_double (of_int k) = Finite (of_int k)"
proof -
  have "real_of_int \<bar>k\<bar> \<le> 2 ^ 53"
    using assms by (metis of_int_le_iff of_int_numeral of_int_power)
  then have "\<bar>real_of_int k\<bar> < 2 ^ 1024" by simp
  then show ?thesis
    by (simp add: to_double_def nearest_double_of_int [OF assms] abs_less_iff)
qed

lemma to_double_finite:
  "nearest_double x = y \<Longrightarrow> \<bar>y\<bar> < 2 ^ 1024 \<Longrightarrow> to_double x = Finite y"
  by (simp add: to_double_def abs_less_iff)

section \<open>Properties of the client pages\<close>

subsection \<open>Side labels\<close>

text \<open>
  Claim C10. The side label is defined for every string; it is \<open>RECEITA\<close> exactly when the side
  is the string \<open>REVENUE\<close> and \<open>DESPESA\<close> for every other input, on the item page and on the
  dashboard alike. The function has no failing branch: an unexpected side is shown as an
  expense.
\<close>

theorem getSideLabel_revenue_iff:
  "(getSideLabel_item s = ''RECEITA'') = (s = ''REVENUE'') \<and>
   (getSideLabel_item s = ''DESPESA'') = (s \<noteq> ''REVENUE'') \<and>
   (getSideLabel_document s = ''RECEITA'') = (s = ''REVENUE'') \<and>
   (getSideLabel_document s = ''DESPESA'') = (s \<noteq> ''REVENUE'')"
  by (simp add: getSideLabel_item_def getSideLabel_document_def)

lemma getSideLabel_examples:
  "getSideLabel_item ''REVENUE'' = ''RECEITA''"
  "getSideLabel_item ''EXPENSE'' = ''DESPESA''"
  "getSideLabel_document ''revenue'' = ''DESPESA''"
  "getSideLabel_document [] = ''DESPESA''"
  by (simp_all add: getSideLabel_item_def getSideLabel_document_def)

subsection \<open>Amounts\<close>

text \<open>
  Claim C7. Provided the runtime's currency formatter never produces the text \<open>N/A\<close>, the
  rendered amount of an item is \<open>N/A\<close> if and only if its value is null, on both pages; a
  value of exactly 0 is rendered as the formatter renders 0, so a missing value is never
  shown as zero and a zero is never shown as missing.
\<close>

theorem formatCurrency_NA_iff_null:
  assumes "\<forall>x. format x \<noteq> ''N/A''"
  shows "(formatCurrency_item format v u = ''N/A'') = (v = None) \<and>
     (formatCurrency_category format v u = ''N/A'') = (v = None) \<and>
     formatCurrency_item format (Some 0) u = format 0 \<and>
     formatCurrency_category format (Some 0) u = format 0"
  using assms
  by (simp add: formatCurrency_item_def formatCurrency_category_def split: option.split)

lemma format_whole_eur_not_NA: "format_whole_eur x \<noteq> ''N/A''"
proof -
  have "last (format_whole_eur x) = CHR ''R''"
    by (simp add: format_whole_eur_def)
  then show ?thesis by auto
qed

theorem formatCurrency_NA_iff_null_witness:
  "(\<forall>x. format_whole_eur x \<noteq> ''N/A'') \<and>
   formatCurrency_item format_whole_eur None ''EUR'' = ''N/A'' \<and>
   formatCurrency_category format_whole_eur None ''EUR'' = ''N/A'' \<and>
   formatCurrency_item format_whole_eur (Some 0) ''EUR'' = ''0 EUR'' \<and>
   formatCurrency_category format_whole_eur (Some 0) ''EUR'' = ''0 EUR''"
proof -
  have h: "\<forall>x. format_whole_eur x \<noteq> ''N/A''"
    by (simp add: format_whole_eur_not_NA)
  have z: "format_whole_eur 0 = ''0 EUR''"
    by code_simp
  from formatCurrency_NA_iff_null [OF h, of None "''EUR''"]
    formatCurrency_NA_iff_null [OF h, of "Some 0" "''EUR''"] h z
  show ?thesis by simp
qed

subsection \<open>The category total\<close>









lemma total_depends_on_order:
  "total [example_amount 10000000000000000, example_amount 1, example_amount 1] =
     Finite 10000000000000000"
  "total [example_amount 1, example_amount 1, example_amount 10000000000000000] =
     Finite 10000000000000002"
proof -
  have "nearest_double 10000000000000000 = 10000000000000000"
    by code_simp
  then have big: "to_double 10000000000000000 = Finite 10000000000000000"
    by (rule to_double_finite) simp
  have one: "to_double 1 = Finite 1"
    using to_double_of_int [of 1] by simp
  have two: "to_double 2 = Finite 2"
    using to_double_of_int [of 2] by simp
  have "nearest_double 10000000000000001 = 10000000000000000"
    by code_simp
  then have up: "to_double 10000000000000001 = Finite 10000000000000000"
    by (rule to_double_finite) simp
  have "nearest_double 10000000000000002 = 10000000000000002"
    by code_simp
  then have even: "to_double 10000000000000002 = Finite 10000000000000002"
    by (rule to_double_finite) simp
  show "total [example_amount 10000000000000000, example_amount 1, example_amount 1] =
      Finite 10000000000000000"
    by (simp add: total_def js_value_def or_zero_def example_amount_def big one up)
  show "total [example_amount 1, example_amount 1, example_amount 10000000000000000] =
      Finite 10000000000000002"
    by (simp add: total_def js_value_def or_zero_def example_amount_def big one two even)
qed

text \<open>The amounts 0.1 and 0.2 add up to the double next above 0.3.\<close>

lemma total_of_tenths:
  "total [example_amount (1 / 10), example_amount (2 / 10)] =
     Finite (1351079888211149 / 2 ^ 52)"
  "(3 / 10 :: real) < 1351079888211149 / 2 ^ 52"
proof -
  have "nearest_double (1 / 10) = 3602879701896397 / 2 ^ 55"
    by code_simp
  then have a: "to_double (1 / 10) = Finite (3602879701896397 / 2 ^ 55)"
    by (rule to_double_finite) simp
  have "nearest_double (2 / 10) = 3602879701896397 / 2 ^ 54"
    by code_simp
  then have b: "to_double (2 / 10) = Finite (3602879701896397 / 2 ^ 54)"
    by (rule to_double_finite) simp
  have "nearest_double (3602879701896397 / 2 ^ 55 + 3602879701896397 / 2 ^ 54) =
      1351079888211149 / 2 ^ 52"
    by code_simp
  then have "to_double (3602879701896397 / 2 ^ 55 + 3602879701896397 / 2 ^ 54) =
      Finite (1351079888211149 / 2 ^ 52)"
    by (rule to_double_finite) simp
  then have s: "js_add (Finite (3602879701896397 / 2 ^ 55)) (Finite (3602879701896397 / 2 ^ 54)) =
      Finite (1351079888211149 / 2 ^ 52)"
    by simp
  have z: "js_add (Finite 0) (Finite (3602879701896397 / 2 ^ 55)) =
      Finite (3602879701896397 / 2 ^ 55)"
    using a to_double_is_double [of "1 / 10"] by (simp add: is_double_def)
  have "total [example_amount (1 / 10), example_amount (2 / 10)] =
      js_add (js_add (Finite 0) (Finite (3602879701896397 / 2 ^ 55)))
        (Finite (3602879701896397 / 2 ^ 54))"
    unfolding total_def js_value_def or_zero_def example_amount_def
    using a b by simp
  with z s show "total [example_amount (1 / 10), example_amount (2 / 10)] =
      Finite (1351079888211149 / 2 ^ 52)"
    by (simp only:)
  show "(3 / 10 :: real) < 1351079888211149 / 2 ^ 52"
    by simp
qed

subsection \<open>Percentages\<close>

lemma js_mul_to_double_not_NaN: "js_mul (to_double x) (Finite 100) \<noteq> NaN"
  by (cases "to_double x") (simp_all add: infinity_def)

text \<open>Without the test for 0 the page would show \<open>NaN%\<close> for a total of 0 in a side whose
  total is 0.\<close>

lemma unguarded_zero_by_zero:
  "toFixed_js (js_mul (js_div (Finite 0) (Finite 0)) (Finite 100)) 1 @ ''%'' = ''NaN%''"
  by (simp add: toFixed_js_def)

text \<open>
  Claim C8, as amended. For every category total \<open>v\<close> and side total \<open>t\<close>, finite numbers, the
  percentage shown is \<open>0%\<close> when \<open>t\<close> is 0; otherwise it is \<open>toFixed(1)\<close> of the number
  \<open>(v / t) * 100\<close>, where the quotient is rounded to the nearest double and so is its product
  with 100. The quotient is taken only when \<open>t\<close> is not 0, and the number rendered is never
  \<open>NaN\<close>.
\<close>

theorem formatPercentage_rounds_twice:
  "formatPercentage toFixed v (Finite 0) = ''0%'' \<and>
   (b \<noteq> 0 \<longrightarrow>
      formatPercentage toFixed (Finite a) (Finite b) =
        toFixed (js_mul (to_double (a / b)) (Finite 100)) 1 @ ''%'') \<and>
   (b \<noteq> 0 \<and> to_double (a / b) = Finite q \<longrightarrow>
      formatPercentage toFixed (Finite a) (Finite b) = toFixed (to_double (q * 100)) 1 @ ''%'') \<and>
   (b \<noteq> 0 \<longrightarrow> js_mul (js_div (Finite a) (Finite b)) (Finite 100) \<noteq> NaN)"
  by (simp add: formatPercentage_def js_mul_to_double_not_NaN)

lemma third_as_double:
  "to_double (1 / 3) = Finite (6004799503160661 / 2 ^ 54)"
  "to_double (6004799503160661 / 2 ^ 54 * 100) = Finite (2345624805922133 / 2 ^ 46)"
proof -
  have "nearest_double (1 / 3) = 6004799503160661 / 2 ^ 54"
    by code_simp
  then show "to_double (1 / 3) = Finite (6004799503160661 / 2 ^ 54)"
    by (rule to_double_finite) simp
  have "nearest_double (6004799503160661 / 2 ^ 54 * 100) = 2345624805922133 / 2 ^ 46"
    by code_simp
  then show "to_double (6004799503160661 / 2 ^ 54 * 100) = Finite (2345624805922133 / 2 ^ 46)"
    by (rule to_double_finite) simp
qed

theorem formatPercentage_rounds_twice_witness:
  "(3::real) \<noteq> 0 \<and>
   to_double (1 / 3) = Finite (6004799503160661 / 2 ^ 54) \<and>
   formatPercentage toFixed_js (Finite 1) (Finite 3) = ''33.3%'' \<and>
   js_mul (js_div (Finite 1) (Finite 3)) (Finite 100) \<noteq> NaN \<and>
   formatPercentage toFixed_js (Finite 5) (Finite 0) = ''0%''"
proof -
  have b: "(3::real) \<noteq> 0" by simp
  have shown: "toFixed_decimal (2345624805922133 / 2 ^ 46) 1 = ''33.3''"
    by code_simp
  from formatPercentage_rounds_twice [of toFixed_js "Finite 5" 3 1 "6004799503160661 / 2 ^ 54"]
    b third_as_double shown
  show ?thesis by (simp add: toFixed_js_def)
qed

text \<open>The claim as it stands fails: for 23 of 80 the page shows \<open>28.7%\<close>, while \<open>100 * 23 / 80\<close> is
  28.75 and \<open>toFixed(1)\<close> renders that as \<open>28.8\<close>.\<close>

theorem formatPercentage_not_exact_counterexample:
  "formatPercentage toFixed_js (Finite 23) (Finite 80) = ''28.7%'' \<and>
   toFixed_js (Finite (100 * 23 / 80)) 1 @ ''%'' = ''28.8%''"
proof -
  have "nearest_double (23 / 80) = 2589569785738035 / 2 ^ 53"
    by code_simp
  then have q: "to_double (23 / 80) = Finite (2589569785738035 / 2 ^ 53)"
    by (rule to_double_finite) simp
  have "nearest_double (2589569785738035 / 2 ^ 53 * 100) = 8092405580431359 / 2 ^ 48"
    by code_simp
  then have p: "to_double (2589569785738035 / 2 ^ 53 * 100) = Finite (8092405580431359 / 2 ^ 48)"
    by (rule to_double_finite) simp
  have shown: "toFixed_decimal (8092405580431359 / 2 ^ 48) 1 = ''28.7''"
    by code_simp
  have exact: "toFixed_decimal (100 * 23 / 80) 1 = ''28.8''"
    by code_simp
  from q have d: "js_div (Finite 23) (Finite 80) = Finite (2589569785738035 / 2 ^ 53)"
    by simp
  from p have m: "js_mul (Finite (2589569785738035 / 2 ^ 53)) (Finite 100) =
      Finite (8092405580431359 / 2 ^ 48)"
    by simp
  have "formatPercentage toFixed_js (Finite 23) (Finite 80) =
      toFixed_js (Finite (8092405580431359 / 2 ^ 48)) 1 @ ''%''"
    unfolding formatPercentage_def d m by simp
  with shown exact show ?thesis
    by (simp add: toFixed_js_def)
qed

lemma percentage_of_no_total:
  "revenue_total summary = 0 \<Longrightarrow> revenue_percentage toFixed summary cat = ''0%''"
  "expense_total summary = 0 \<Longrightarrow> expense_percentage toFixed summary cat = ''0%''"
  by (simp_all add: revenue_percentage_def expense_percentage_def formatPercentage_def)

subsection \<open>The order of the category lists\<close>

lemma mset_js_insert: "mset (js_insert cmp x xs) = add_mset x (mset xs)"
  by (induction xs) auto

lemma mset_js_sort: "mset (js_sort cmp xs) = mset xs"
  by (induction xs) (auto simp: mset_js_insert)

lemma set_js_insert: "set (js_insert cmp x xs) = insert x (set xs)"
  by (induction xs) auto

lemma js_insert_keeps_desc:
  "sorted_wrt (\<lambda>a b. total_value b \<le> total_value a) xs \<Longrightarrow>
   sorted_wrt (\<lambda>a b. total_value b \<le> total_value a) (js_insert by_total_desc x xs)"
  by (induction xs) (auto simp: set_js_insert by_total_desc_def)

lemma js_sort_desc:
  "sorted_wrt (\<lambda>a b. total_value b \<le> total_value a) (js_sort by_total_desc xs)"
  by (induction xs) (auto simp: js_insert_keeps_desc)

text \<open>
  Claim C9. Whatever the order in which the summary lists the categories, the dashboard
  shows the revenue categories and the expense categories each in non-increasing order of
  \<open>total_value\<close>, and shows exactly the categories it received.
\<close>

theorem shown_categories_sorted_descending:
  "sorted_wrt (\<lambda>a b. total_value b \<le> total_value a) (shown_revenue_categories summary) \<and>
   mset (shown_revenue_categories summary) = mset (revenue_by_category summary) \<and>
   sorted_wrt (\<lambda>a b. total_value b \<le> total_value a) (shown_expense_categories summary) \<and>
   mset (shown_expense_categories summary) = mset (expense_by_category summary)"
  by (simp add: shown_revenue_categories_def shown_expense_categories_def
      js_sort_desc mset_js_sort)

lemma shown_categories_example:
  "map total_value
     (js_sort by_total_desc
        [\<lparr>summary_category = ''Health'', total_value = 500, item_count = 2\<rparr>,
         \<lparr>summary_category = ''Justice'', total_value = 0, item_count = 1\<rparr>,
         \<lparr>summary_category = ''Education'', total_value = 900, item_count = 4\<rparr>])
   = [900, 500, 0]"
  by (simp add: by_total_desc_def)

section \<open>Properties of the validated item store\<close>

lemma validate_evidence_backed: "validate c pages = Inr i \<Longrightarrow> evidence_backed pages i"
  by (auto simp: validate_def evidence_backed_def split: if_splits option.splits)

lemma accepted_evidence_backed: "i \<in> set (accepted pages cs) \<Longrightarrow> evidence_backed pages i"
  by (auto simp: accepted_def List.map_filter_def validate_evidence_backed split: sum.splits)

lemma store_step_evidence_backed:
  "list_all (evidence_backed pages) items \<Longrightarrow>
   list_all (evidence_backed pages) (store_step pages items e)"
  by (cases e) (auto simp: list_all_iff accepted_evidence_backed)

lemma foldl_store_evidence_backed:
  "list_all (evidence_backed pages) items \<Longrightarrow>
   list_all (evidence_backed pages) (foldl (store_step pages) items es)"
  by (induction es arbitrary: items) (auto simp: store_step_evidence_backed)

lemma store_after_evidence_backed: "list_all (evidence_backed pages) (store_after pages es)"
  by (simp add: store_after_def foldl_store_evidence_backed)

lemma getItem_in_store: "getItem items i = Some x \<Longrightarrow> x \<in> set items"
  by (auto simp: getItem_def find_Some_iff)

lemma mset_insert_by: "mset (insert_by le x xs) = add_mset x (mset xs)"
  by (induction xs) auto

lemma mset_sort_by: "mset (sort_by le xs) = mset xs"
  by (induction xs) (auto simp: mset_insert_by)

lemma set_insert_by: "set (insert_by le x xs) = insert x (set xs)"
  by (induction xs) auto

lemma set_sort_by: "set (sort_by le xs) = set xs"
  by (induction xs) (auto simp: set_insert_by)

text \<open>
  Claim C1. Every item with a non-null value that is in a document's store after any sequence
  of section persists and deletions, or that \<open>getItem\<close> or \<open>getItemsByCategory\<close> returns from
  that store, has a non-empty \<open>evidence_text\<close> that occurs character for character in the text
  of the page its \<open>page_number\<close> identifies.
\<close>

theorem persisted_evidence_is_literal_substring:
  assumes "x \<in> set (store_after pages events) \<or>
           getItem (store_after pages events) i = Some x \<or>
           x \<in> set (getItemsByCategory nulls_first (store_after pages events) d c k)"
    and "item_value x \<noteq> None"
  shows "evidence_text x \<noteq> [] \<and>
         (\<exists>p pre post. find_page pages (page_number x) = Some p \<and>
                        page_text p = pre @ evidence_text x @ post)"
proof -
  have "x \<in> set (store_after pages events)"
    using assms(1)
    by (auto simp: getItemsByCategory_def set_sort_by matching_def dest: getItem_in_store)
  then have "evidence_backed pages x"
    using store_after_evidence_backed [of pages events] by (simp add: list_all_iff)
  with assms(2) show ?thesis
    by (auto simp: evidence_backed_def sublist_def split: option.splits)
qed

lemma example_store:
  "store_after example_pages [PersistSection [example_item, example_rejected, example_null]] =
     [example_item, example_null]"
  by (simp add: store_after_def accepted_def List.map_filter_def validate_def find_page_def
      example_pages_def example_item_def example_rejected_def example_null_def
      taxonomy_def expense_categories_def sublist_code)

lemma example_validate:
  "validate example_item example_pages = Inr example_item"
  "validate example_rejected example_pages = Inl EvidenceNotFound"
  by (simp_all add: validate_def find_page_def example_pages_def example_item_def
      example_rejected_def taxonomy_def expense_categories_def sublist_code)

theorem persisted_evidence_is_literal_substring_witness:
  "example_item \<in>
     set (store_after example_pages [PersistSection [example_item, example_rejected, example_null]]) \<and>
   item_value example_item \<noteq> None \<and>
   evidence_text example_item \<noteq> [] \<and>
   (\<exists>p pre post. find_page example_pages (page_number example_item) = Some p \<and>
                  page_text p = pre @ evidence_text example_item @ post)"
proof -
  have m: "example_item \<in>
      set (store_after example_pages [PersistSection [example_item, example_rejected, example_null]])"
    by (simp add: example_store)
  have v: "item_value example_item \<noteq> None"
    by (simp add: example_item_def)
  from persisted_evidence_is_literal_substring [OF disjI1 [OF m] v] m v
  show ?thesis by blast
qed

section \<open>Properties of the items-by-category query\<close>

lemma sorted_insert_by:
  assumes tot: "\<And>a b. le a b \<or> le b a" and tr: "\<And>a b c. le a b \<Longrightarrow> le b c \<Longrightarrow> le a c"
  shows "sorted_wrt le xs \<Longrightarrow> sorted_wrt le (insert_by le x xs)"
proof (induction xs)
  case Nil
  then show ?case by simp
next
  case (Cons y ys)
  show ?case
  proof (cases "le x y")
    case True
    with Cons.prems tr show ?thesis by auto
  next
    case False
    with tot have "le y x" by blast
    with Cons False show ?thesis by (auto simp: set_insert_by)
  qed
qed

lemma sorted_sort_by:
  assumes tot: "\<And>a b. le a b \<or> le b a" and tr: "\<And>a b c. le a b \<Longrightarrow> le b c \<Longrightarrow> le a c"
  shows "sorted_wrt le (sort_by le xs)"
  by (induction xs) (auto intro: sorted_insert_by [OF tot tr])

lemma value_desc_total: "value_desc nf a b \<or> value_desc nf b a"
  by (auto simp: value_desc_def split: option.splits)

lemma value_desc_trans: "value_desc nf a b \<Longrightarrow> value_desc nf b c \<Longrightarrow> value_desc nf a c"
  by (auto simp: value_desc_def split: option.splits)

lemma key_order_total: "key_order nf k a b \<or> key_order nf k b a"
  by (cases k) (auto simp: value_desc_total)

lemma key_order_trans: "key_order nf k a b \<Longrightarrow> key_order nf k b c \<Longrightarrow> key_order nf k a c"
  by (cases k) (auto intro: value_desc_trans)

lemma sorted_getItemsByCategory:
  "sorted_wrt (key_order nf k) (getItemsByCategory nf items d c k)"
  unfolding getItemsByCategory_def
  using key_order_total [of nf k] key_order_trans [of nf k]
  by (intro sorted_sort_by) blast+

lemma sorted_values_desc:
  "sorted_wrt (key_order nf ByValue) xs \<Longrightarrow>
   sorted_wrt (\<lambda>x y. y \<le> x) (List.map_filter item_value xs)"
  by (induction xs)
     (auto simp: List.map_filter_simps value_desc_def List.map_filter_def split: option.splits)

lemma sorted_pages_asc:
  "sorted_wrt (key_order nf ByPageNumber) xs \<Longrightarrow> sorted (map page_number xs)"
  by (induction xs) auto

lemma sorted_descriptions:
  "sorted_wrt (key_order nf ByDescription) xs \<Longrightarrow> sorted (map description_original xs)"
  by (induction xs) auto

lemma sortBy_after_offered: "sortBy_after choices \<in> set sort_options"
proof -
  have "s \<in> set sort_options \<Longrightarrow> foldl onChange_sortBy s choices \<in> set sort_options" for s
    by (induction choices arbitrary: s) (auto simp: onChange_sortBy_def)
  then show ?thesis
    by (simp add: sortBy_after_def initial_sortBy_def sort_options_def)
qed

text \<open>
  Claim C6. For every document and category the query returns exactly the matching items,
  ordered by the requested key: the values in descending order, the page numbers in
  ascending order, or the descriptions in lexicographic order. There are three keys and no
  other; the client offers exactly the three names \<open>value\<close>, \<open>page_number\<close> and
  \<open>description\<close>, each the name of one key, and whatever the user selects, the key it sends
  is one of them.
\<close>

theorem items_by_category_sorted_by_key:
  "mset (getItemsByCategory nulls_first items d c k) = mset (matching items d c) \<and>
   sorted_wrt (key_order nulls_first k) (getItemsByCategory nulls_first items d c k) \<and>
   sorted_wrt (\<lambda>x y. y \<le> x)
     (List.map_filter item_value (getItemsByCategory nulls_first items d c ByValue)) \<and>
   sorted (map page_number (getItemsByCategory nulls_first items d c ByPageNumber)) \<and>
   sorted (map description_original (getItemsByCategory nulls_first items d c ByDescription)) \<and>
   (k = ByValue \<or> k = ByPageNumber \<or> k = ByDescription) \<and>
   sort_options = [''value'', ''page_number'', ''description''] \<and>
   map parse_sort_key sort_options = [Some ByValue, Some ByPageNumber, Some ByDescription] \<and>
   (parse_sort_key s \<noteq> None) = (s \<in> set sort_options) \<and>
   sortBy_after choices \<in> set sort_options"
proof -
  have "k = ByValue \<or> k = ByPageNumber \<or> k = ByDescription"
    by (cases k) simp_all
  moreover have "sort_options = [''value'', ''page_number'', ''description'']"
    by (simp add: sort_options_def)
  moreover have "map parse_sort_key sort_options =
      [Some ByValue, Some ByPageNumber, Some ByDescription]"
    by (simp add: sort_options_def parse_sort_key_def)
  moreover have "(parse_sort_key s \<noteq> None) = (s \<in> set sort_options)"
    by (simp add: sort_options_def parse_sort_key_def)
  moreover have "mset (getItemsByCategory nulls_first items d c k) = mset (matching items d c)"
    by (simp add: getItemsByCategory_def mset_sort_by)
  ultimately show ?thesis
    using sorted_getItemsByCategory [of nulls_first _ items d c]
      sorted_values_desc sorted_pages_asc sorted_descriptions sortBy_after_offered [of choices]
    by blast
qed

lemma items_by_category_example:
  "map item_id (getItemsByCategory True
      [example_null, example_item, example_rejected] ''d1'' ''Health'' ByValue) = [''i3'', ''i1'']"
  "map item_id (getItemsByCategory False
      [example_null, example_item, example_rejected] ''d1'' ''Health'' ByValue) = [''i1'', ''i3'']"
  "map item_id (getItemsByCategory False
      [example_null, example_item, example_rejected] ''d1'' ''Health'' ByPageNumber) = [''i1'', ''i3'']"
  "map item_id (getItemsByCategory False
      [example_item, example_null, example_rejected] ''d1'' ''Health'' ByDescription) = [''i3'', ''i1'']"
  "sortBy_after [2, 1] = ''page_number''"
  by (simp_all add: getItemsByCategory_def matching_def value_desc_def example_null_def
      example_item_def example_rejected_def sortBy_after_def onChange_sortBy_def
      sort_options_def initial_sortBy_def)

section \<open>Properties of the job state machine\<close>

subsection \<open>The job the dashboard selects\<close>







text \<open>Such a list is served: the spec's transitions reach it, a re-import queueing a second
  job before the first is claimed.\<close>

lemma two_active_jobs_served:
  "getJobs (run ''j1'' [Reimport ''j2'', Claim 1, StageDone 1 10]) =
     [\<lparr>job_id = ''j1'', status = ''PENDING'', progress = 0, error_message = None\<rparr>,
      \<lparr>job_id = ''j2'', status = ''RUNNING'', progress = 10, error_message = None\<rparr>]"
  by (simp add: run_def upload_def new_job_def getJobs_def to_ImportJob_def)

subsection \<open>Running jobs exclude each other\<close>

lemma single_keep:
  assumes "single P xs" and "k < length xs" and "P y \<Longrightarrow> P (xs ! k)"
  shows "single P (xs[k := y])"
  unfolding single_def
proof (intro allI impI)
  fix a b
  assume a: "a < length (xs[k := y])" and b: "b < length (xs[k := y])"
    and p: "P (xs[k := y] ! a) \<and> P (xs[k := y] ! b)"
  from a b have a': "a < length xs" and b': "b < length xs"
    by simp_all
  have "P (xs ! c)" if "c < length xs" "P (xs[k := y] ! c)" for c
    using that assms(2,3) by (cases "c = k") simp_all
  with a' b' p have "P (xs ! a)" "P (xs ! b)" by blast+
  with assms(1) a' b' show "a = b"
    unfolding single_def by blast
qed

lemma single_only:
  assumes "list_all (\<lambda>x. \<not> P x) xs"
  shows "single P (xs[k := y])"
  unfolding single_def
proof (intro allI impI)
  fix a b
  assume a: "a < length (xs[k := y])" and b: "b < length (xs[k := y])"
    and p: "P (xs[k := y] ! a) \<and> P (xs[k := y] ! b)"
  have "c = k" if "c < length xs" "P (xs[k := y] ! c)" for c
  proof (rule ccontr)
    assume "c \<noteq> k"
    with that have "P (xs ! c)" by simp
    with assms that(1) show False by (simp add: list_all_length)
  qed
  moreover from a b have "a < length xs" "b < length xs"
    by simp_all
  ultimately have "a = k" "b = k"
    using p by blast+
  then show "a = b" by simp
qed

lemma single_append:
  assumes "single P xs" and "\<not> P y"
  shows "single P (xs @ [y])"
  unfolding single_def
proof (intro allI impI)
  fix a b
  assume a: "a < length (xs @ [y])" and b: "b < length (xs @ [y])"
    and p: "P ((xs @ [y]) ! a) \<and> P ((xs @ [y]) ! b)"
  have "c < length xs \<and> P (xs ! c)" if "c < length (xs @ [y])" "P ((xs @ [y]) ! c)" for c
    using that assms(2) by (cases "c < length xs") (simp_all add: nth_append)
  with a b p have "a < length xs" "b < length xs" "P (xs ! a)" "P (xs ! b)" by blast+
  with assms(1) show "a = b"
    unfolding single_def by blast
qed

lemma single_filter: "single P xs \<Longrightarrow> length (filter P xs) \<le> 1"
proof (induction xs)
  case Nil
  then show ?case by simp
next
  case (Cons x xs)
  have rest: "single P xs"
    unfolding single_def
  proof (intro allI impI)
    fix a b
    assume "a < length xs" "b < length xs" "P (xs ! a) \<and> P (xs ! b)"
    with Cons.prems have "Suc a = Suc b"
      unfolding single_def by (metis length_Cons not_less_eq nth_Cons_Suc)
    then show "a = b" by simp
  qed
  show ?case
  proof (cases "P x")
    case False
    with Cons.IH [OF rest] show ?thesis by simp
  next
    case True
    have "\<not> P z" if "z \<in> set xs" for z
    proof
      assume pz: "P z"
      from that obtain c where c: "c < length xs" "xs ! c = z"
        by (auto simp: in_set_conv_nth)
      with Cons.prems True pz have "Suc c = 0"
        unfolding single_def
        by (metis length_Cons not_less_eq nth_Cons_0 nth_Cons_Suc zero_less_Suc)
      then show False by simp
    qed
    then have "filter P xs = []"
      by (simp add: filter_empty_conv)
    with True show ?thesis by simp
  qed
qed

lemma running_step:
  assumes "single (\<lambda>j. job_status j = RUNNING) js"
  shows "single (\<lambda>j. job_status j = RUNNING) (step js e)"
proof (cases e)
  case (Reimport i)
  with assms show ?thesis
    by (simp add: single_append new_job_def)
next
  case (Claim k)
  with assms show ?thesis
    by (simp add: single_only)
next
  case (StageDone k p)
  with assms show ?thesis
    by (simp add: single_keep)
next
  case (Complete k)
  with assms show ?thesis
    by (simp add: single_keep)
next
  case (Fail k m)
  with assms show ?thesis
    by (simp add: single_keep)
qed

text \<open>What the atomic claim does guarantee: in every job history reached from an upload
  at most one job is \<open>RUNNING\<close>.\<close>

lemma at_most_one_running:
  "length (filter (\<lambda>j. job_status j = RUNNING) (run i es)) \<le> 1"
proof -
  have "single (\<lambda>j. job_status j = RUNNING) js \<Longrightarrow>
      single (\<lambda>j. job_status j = RUNNING) (foldl step js es)" for js
    by (induction es arbitrary: js) (simp_all add: running_step)
  moreover have "single (\<lambda>j. job_status j = RUNNING) (upload i)"
    by (simp add: single_def upload_def)
  ultimately have "single (\<lambda>j. job_status j = RUNNING) (run i es)"
    by (simp add: run_def)
  then show ?thesis by (rule single_filter)
qed

subsection \<open>The chain of statuses\<close>

lemma length_step: "length js \<le> length (step js e)"
  by (cases e) simp_all

lemma new_jobs_pending:
  "length js \<le> k \<Longrightarrow> k < length (step js e) \<Longrightarrow> job_status (step js e ! k) = PENDING"
  by (cases e) (auto simp: nth_append new_job_def split: if_splits)

lemma step_status_chain:
  assumes "k < length js"
  shows "job_status (step js e ! k) = job_status (js ! k) \<or>
     (job_status (js ! k) = PENDING \<and> job_status (step js e ! k) = RUNNING \<and> e = Claim k) \<or>
     (job_status (js ! k) = RUNNING \<and> job_status (step js e ! k) = COMPLETED \<and>
        e = Complete k) \<or>
     (job_status (js ! k) = RUNNING \<and> job_status (step js e ! k) = FAILED \<and>
        (\<exists>m. e = Fail k m))"
  using assms by (cases e) (auto simp: nth_append nth_list_update)

lemma step_terminal_fixed:
  assumes "k < length js" and "terminal (job_status (js ! k))"
  shows "step js e ! k = js ! k"
  using assms by (cases e) (auto simp: nth_append nth_list_update terminal_def)

lemma foldl_terminal_fixed:
  assumes "k < length js" and "terminal (job_status (js ! k))"
  shows "foldl step js es ! k = js ! k"
  using assms
proof (induction es arbitrary: js)
  case Nil
  then show ?case by simp
next
  case (Cons e es)
  have eq: "step js e ! k = js ! k"
    using Cons.prems by (rule step_terminal_fixed)
  have len: "k < length (step js e)"
    using Cons.prems(1) length_step [of js e] by simp
  have "foldl step (step js e) es ! k = step js e ! k"
    using len Cons.prems(2) eq by (intro Cons.IH) simp_all
  with eq show ?case by simp
qed

text \<open>
  Claim C4. A job is created in \<open>PENDING\<close>, by the upload or by a re-import; one transition
  changes the status of a job only from \<open>PENDING\<close> to \<open>RUNNING\<close>, and then it is the claim of
  that job, or from \<open>RUNNING\<close> to \<open>COMPLETED\<close> or \<open>FAILED\<close>; and a job whose status is
  \<open>COMPLETED\<close> or \<open>FAILED\<close> keeps that status through every later sequence of events, while
  new jobs may be appended after it.
\<close>

theorem job_status_follows_chain:
  "map job_status (upload i) = [PENDING] \<and>
   length js \<le> length (step js e) \<and>
   (\<forall>k. length js \<le> k \<and> k < length (step js e) \<longrightarrow> job_status (step js e ! k) = PENDING) \<and>
   (\<forall>k<length js.
      job_status (step js e ! k) = job_status (js ! k) \<or>
      (job_status (js ! k) = PENDING \<and> job_status (step js e ! k) = RUNNING \<and> e = Claim k) \<or>
      (job_status (js ! k) = RUNNING \<and> job_status (step js e ! k) = COMPLETED \<and>
         e = Complete k) \<or>
      (job_status (js ! k) = RUNNING \<and> job_status (step js e ! k) = FAILED \<and>
         (\<exists>m. e = Fail k m))) \<and>
   (\<forall>k<length js. terminal (job_status (js ! k)) \<longrightarrow>
      job_status (foldl step js es ! k) = job_status (js ! k))"
proof -
  have created: "map job_status (upload i) = [PENDING]"
    by (simp add: upload_def new_job_def)
  have fresh: "\<forall>k. length js \<le> k \<and> k < length (step js e) \<longrightarrow>
      job_status (step js e ! k) = PENDING"
    by (simp add: new_jobs_pending)
  have final: "\<forall>k<length js. terminal (job_status (js ! k)) \<longrightarrow>
      job_status (foldl step js es ! k) = job_status (js ! k)"
    by (simp add: foldl_terminal_fixed)
  show ?thesis
    using created fresh final length_step [of js e] step_status_chain [of _ js e] by blast
qed

theorem job_status_follows_chain_witness:
  "map job_status (upload ''j1'') = [PENDING] \<and>
   job_status (step (upload ''j1'') (Claim 0) ! 0) = RUNNING \<and>
   job_status (step (run ''j1'' [Claim 0]) (Complete 0) ! 0) = COMPLETED \<and>
   terminal (job_status (run ''j1'' [Claim 0, Complete 0] ! 0)) \<and>
   job_status (step (run ''j1'' [Claim 0, Complete 0]) (Reimport ''j2'') ! 1) = PENDING \<and>
   job_status
     (foldl step (run ''j1'' [Claim 0, Complete 0])
        [Claim 0, Fail 0 ''late'', StageDone 0 5, Reimport ''j2''] ! 0) = COMPLETED"
  using job_status_follows_chain
    [of "''j1''" "run ''j1'' [Claim 0, Complete 0]" "Reimport ''j2''"
        "[Claim 0, Fail 0 ''late'', StageDone 0 5, Reimport ''j2'']"]
  by (simp add: run_def upload_def new_job_def terminal_def)

end
